theory Spec2Isabelle
  imports Complex_Main
begin

section \<open>Values of the occurrence table\<close>

text \<open>
  The script \<^verbatim>\<open>prepare_gbif_data.py\<close> is a linear pipeline over a pandas table.
  A cell that pandas treats as null (NaN, None, NaT) is \<open>None\<close>. A non-null float is
  a finite double, and every finite double is a rational number, so a float cell is a
  \<open>rat option\<close>.
\<close>

type_synonym float = "rat option"

datatype error = ValueError

subsection \<open>Timestamps\<close>

text \<open>
  The \<open>date\<close> column holds calendar dates with the time of day at midnight (the
  source format has no time fields), so a timestamp is its year, month and day.
\<close>

record timestamp =
  year :: int
  month :: nat
  day :: nat

definition is_leap :: "int \<Rightarrow> bool" where
  "is_leap y = (y mod 4 = 0 \<and> (y mod 100 \<noteq> 0 \<or> y mod 400 = 0))"

definition days_in_month :: "int \<Rightarrow> nat \<Rightarrow> nat" where
  "days_in_month y m =
     (if m = 2 then (if is_leap y then 29 else 28)
      else if m = 4 \<or> m = 6 \<or> m = 9 \<or> m = 11 then 30
      else 31)"

text \<open>A timestamp that the datetime constructor accepts.\<close>

definition valid_date :: "timestamp \<Rightarrow> bool" where
  "valid_date t =
     (1 \<le> year t \<and> year t \<le> 9999 \<and> 1 \<le> month t \<and> month t \<le> 12 \<and>
      1 \<le> day t \<and> day t \<le> days_in_month (year t) (month t))"

text \<open>
  \<^verbatim>\<open>date_value.replace(year=y)\<close> builds the timestamp again with the new year and
  raises \<^verbatim>\<open>ValueError\<close> when the result is no calendar date (29 February in a year
  that is no leap year).
\<close>

definition replace_year :: "timestamp \<Rightarrow> int \<Rightarrow> error + timestamp" where
  "replace_year t y =
     (let t' = t\<lparr>year := y\<rparr> in if valid_date t' then Inr t' else Inl ValueError)"

subsection \<open>Century correction (lines 24 to 29)\<close>

text \<open>
  \<^verbatim>\<open>
  def correct_future_dates(date_value):
      if pd.notna(date_value):
          if date_value.year >= 2026:
              corrected_year = date_value.year - 100
              return date_value.replace(year=corrected_year)
      return date_value
  \<close>
\<close>

definition correct_future_dates :: "timestamp option \<Rightarrow> error + timestamp option" where
  "correct_future_dates date_value =
     (case date_value of
        Some d \<Rightarrow>
          if year d \<ge> 2026 then
            (let corrected_year = year d - 100 in
             case replace_year d corrected_year of
               Inl e \<Rightarrow> Inl e
             | Inr d' \<Rightarrow> Inr (Some d'))
          else Inr date_value
      | None \<Rightarrow> Inr date_value)"

subsection \<open>Parsing the date column (line 21)\<close>

text \<open>
  \<^verbatim>\<open>pd.to_datetime(df["date"], format="%m/%d/%y")\<close> matches each string against the
  whole format. \<^verbatim>\<open>%m\<close> is a month 1 to 12 written with one or two digits,
  \<^verbatim>\<open>%d\<close> a day 1 to 31 written with one or two digits (or a space and one digit),
  \<^verbatim>\<open>%y\<close> exactly two digits, read as 2000 + y when y is at most 68 and as
  1900 + y otherwise. None of the three fields can hold a slash, so the string splits at
  its slashes into exactly these three fields.
\<close>

definition digit :: "char \<Rightarrow> nat option" where
  "digit c = (if c \<in> set ''0123456789'' then Some (of_char c - 48) else None)"

fun split_on :: "char \<Rightarrow> string \<Rightarrow> string list" where
  "split_on sep [] = [[]]"
| "split_on sep (c # cs) =
     (if c = sep then [] # split_on sep cs
      else (case split_on sep cs of
              [] \<Rightarrow> [[c]]
            | w # ws \<Rightarrow> (c # w) # ws))"

definition parse_month :: "string \<Rightarrow> nat option" where
  "parse_month s =
     (case s of
        [a] \<Rightarrow> (case digit a of Some n \<Rightarrow> if 1 \<le> n then Some n else None | None \<Rightarrow> None)
      | [a, b] \<Rightarrow>
          (case (digit a, digit b) of
             (Some m, Some n) \<Rightarrow>
               if m = 1 \<and> n \<le> 2 then Some (10 + n)
               else if m = 0 \<and> 1 \<le> n then Some n
               else None
           | _ \<Rightarrow> None)
      | _ \<Rightarrow> None)"

definition parse_day :: "string \<Rightarrow> nat option" where
  "parse_day s =
     (case s of
        [a] \<Rightarrow> (case digit a of Some n \<Rightarrow> if 1 \<le> n then Some n else None | None \<Rightarrow> None)
      | [a, b] \<Rightarrow>
          (case digit b of
             None \<Rightarrow> None
           | Some n \<Rightarrow>
               if a = CHR '' '' then (if 1 \<le> n then Some n else None)
               else (case digit a of
                       None \<Rightarrow> None
                     | Some m \<Rightarrow>
                         if m = 3 \<and> n \<le> 1 then Some (30 + n)
                         else if m = 1 \<or> m = 2 then Some (10 * m + n)
                         else if m = 0 \<and> 1 \<le> n then Some n
                         else None))
      | _ \<Rightarrow> None)"

definition parse_year2 :: "string \<Rightarrow> int option" where
  "parse_year2 s =
     (case s of
        [a, b] \<Rightarrow>
          (case (digit a, digit b) of
             (Some m, Some n) \<Rightarrow>
               (let y = int (10 * m + n) in
                Some (if y \<le> 68 then 2000 + y else 1900 + y))
           | _ \<Rightarrow> None)
      | _ \<Rightarrow> None)"

text \<open>The parse of one string with the format \<^verbatim>\<open>%m/%d/%y\<close>; \<open>None\<close> is no match.\<close>

definition strptime :: "string \<Rightarrow> timestamp option" where
  "strptime s =
     (case split_on CHR ''/'' s of
        [ms, ds, ys] \<Rightarrow>
          (case (parse_month ms, parse_day ds, parse_year2 ys) of
             (Some m, Some d, Some y) \<Rightarrow>
               (let t = \<lparr>year = y, month = m, day = d\<rparr> in
                if valid_date t then Some t else None)
           | _ \<Rightarrow> None)
      | _ \<Rightarrow> None)"

text \<open>
  The strings pandas reads as a missing timestamp without matching the format.
\<close>

definition nat_strings :: "string list" where
  "nat_strings = [''NaT'', ''nat'', ''NAT'', ''nan'', ''NaN'', ''NAN'']"

text \<open>
  One cell of the column. The call passes no \<^verbatim>\<open>errors\<close> argument, so the default
  \<^verbatim>\<open>errors="raise"\<close> applies: a string that does not match raises
  \<^verbatim>\<open>ValueError\<close>. A null cell becomes NaT.
\<close>

definition to_datetime_cell :: "string option \<Rightarrow> error + timestamp option" where
  "to_datetime_cell c =
     (case c of
        None \<Rightarrow> Inr None
      | Some s \<Rightarrow>
          if s = [] \<or> s \<in> set nat_strings then Inr None
          else (case strptime s of
                  None \<Rightarrow> Inl ValueError
                | Some t \<Rightarrow> Inr (Some t)))"

text \<open>A column is converted cell by cell; the first failure aborts the call.\<close>

fun traverse :: "('a \<Rightarrow> error + 'b) \<Rightarrow> 'a list \<Rightarrow> error + 'b list" where
  "traverse f [] = Inr []"
| "traverse f (x # xs) =
     (case f x of
        Inl e \<Rightarrow> Inl e
      | Inr y \<Rightarrow> (case traverse f xs of Inl e \<Rightarrow> Inl e | Inr ys \<Rightarrow> Inr (y # ys)))"

definition to_datetime :: "string option list \<Rightarrow> error + timestamp option list" where
  "to_datetime col = traverse to_datetime_cell col"

section \<open>The cleaner (lines 9 to 61)\<close>

text \<open>
  A row of the input file, with the columns the script reads. Every other column of the
  file is discarded by the projection of line 52 and has no part in what follows.
\<close>

record source_row =
  decimalLatitude :: float
  decimalLongitude :: float
  date_text :: "string option"
  type_col :: "string option"
  basisOfRecord :: "string option"
  gbifID :: "string option"
  occurrenceID :: "string option"

text \<open>
  A data frame is the list of its rows in order, each with its index label. Dropping
  rows keeps the labels of the rows that stay: the script never resets the index.
\<close>

type_synonym 'r frame = "(nat \<times> 'r) list"

text \<open>\<^verbatim>\<open>pd.read_csv\<close> labels the rows of the file 0, 1, 2, ... (line 9).\<close>

definition read_csv :: "'r list \<Rightarrow> 'r frame" where
  "read_csv file_rows = zip [0..<length file_rows] file_rows"

text \<open>
  \<^verbatim>\<open>df.dropna(subset=[...])\<close> keeps the rows in which every column of the subset is
  non-null; \<open>present\<close> says so of a row.
\<close>

definition dropna :: "('r \<Rightarrow> bool) \<Rightarrow> 'r frame \<Rightarrow> 'r frame" where
  "dropna present df = filter (\<lambda>(i, r). present r) df"

text \<open>The columns that lines 15 to 52 keep or derive, in the order of line 47.\<close>

record kept_columns =
  latitude :: float
  longitude :: float
  year_col :: "int option"
  month_col :: "nat option"
  day_col :: "nat option"
  kept_type :: "string option"
  kept_basisOfRecord :: "string option"
  kept_gbifID :: "string option"
  kept_occurrenceID :: "string option"

text \<open>The table of lines 21 to 55 carries the parsed \<open>date\<close> column.\<close>

record dated_row = kept_columns +
  date :: "timestamp option"

text \<open>
  The cleaned table (after line 61) has lost \<open>date\<close> and carries the column
  \<^verbatim>\<open>system:time_start\<close>.
\<close>

record cleaned_row = kept_columns +
  time_start :: "string option"

text \<open>
  Lines 15 to 37 for one row: the coordinates under their new names, the corrected date, and
  the year, month and day read off it (null where the date is NaT).
\<close>

definition derive_row :: "source_row \<Rightarrow> timestamp option \<Rightarrow> dated_row" where
  "derive_row r d =
     \<lparr>latitude = decimalLatitude r, longitude = decimalLongitude r,
      year_col = map_option year d, month_col = map_option month d,
      day_col = map_option day d,
      kept_type = type_col r, kept_basisOfRecord = basisOfRecord r,
      kept_gbifID = gbifID r, kept_occurrenceID = occurrenceID r,
      date = d\<rparr>"

text \<open>
  \<^verbatim>\<open>pd.to_numeric(df["year"], errors="coerce")\<close> (line 40) leaves a numeric column as
  it is.
\<close>

definition to_numeric :: "int option \<Rightarrow> int option" where
  "to_numeric v = v"

text \<open>\<^verbatim>\<open>strftime("%Y-%m-%dT%H:%M:%S")\<close> of a date at midnight (line 58).\<close>

definition digit_char :: "nat \<Rightarrow> char" where
  "digit_char n = char_of (48 + n mod 10)"

definition pad2 :: "nat \<Rightarrow> string" where
  "pad2 n = [digit_char (n div 10), digit_char n]"

definition pad4 :: "nat \<Rightarrow> string" where
  "pad4 n = [digit_char (n div 1000), digit_char (n div 100), digit_char (n div 10), digit_char n]"

definition strftime :: "timestamp \<Rightarrow> string" where
  "strftime t = pad4 (nat (year t)) @ ''-'' @ pad2 (month t) @ ''-'' @ pad2 (day t) @ ''T00:00:00''"

text \<open>Lines 58 to 61 for one row.\<close>

definition finish_row :: "dated_row \<Rightarrow> cleaned_row" where
  "finish_row r =
     \<lparr>latitude = latitude r, longitude = longitude r,
      year_col = year_col r, month_col = month_col r, day_col = day_col r,
      kept_type = kept_type r, kept_basisOfRecord = kept_basisOfRecord r,
      kept_gbifID = kept_gbifID r, kept_occurrenceID = kept_occurrenceID r,
      time_start = map_option strftime (date r)\<rparr>"

text \<open>
  The whole stage. The two calls that can raise are the parse of line 21 and the
  row-wise correction of line 32; an exception ends the script.
\<close>

definition clean :: "source_row frame \<Rightarrow> error + cleaned_row frame" where
  "clean df =
     (let df1 = dropna (\<lambda>r. decimalLatitude r \<noteq> None \<and> decimalLongitude r \<noteq> None) df in
      case to_datetime (map (\<lambda>(i, r). date_text r) df1) of
        Inl e \<Rightarrow> Inl e
      | Inr parsed \<Rightarrow>
          (case traverse correct_future_dates parsed of
             Inl e \<Rightarrow> Inl e
           | Inr corrected \<Rightarrow>
               (let df2 = map (\<lambda>((i, r), d). (i, derive_row r d)) (zip df1 corrected);
                    df3 = map (\<lambda>(i, r). (i, r\<lparr>year_col := to_numeric (year_col r)\<rparr>)) df2;
                    df4 = dropna (\<lambda>r. year_col r \<noteq> None) df3;
                    df5 = dropna (\<lambda>r. date r \<noteq> None) df4
                in Inr (map (\<lambda>(i, r). (i, finish_row r)) df5))))"

section \<open>Geometry (lines 66 to 112)\<close>

text \<open>
  A point of the plane as the geometry library holds it: \<open>x\<close> first, \<open>y\<close> second.
\<close>

datatype point = Point (point_x: float) (point_y: float)

type_synonym coord = "rat \<times> rat"

datatype polygon = Polygon (exterior: "coord list")

text \<open>The literal of lines 66 to 101, pairs of (longitude, latitude).\<close>

definition mbc_coords :: "coord list" where
  "mbc_coords =
     [(-91.17999732980365, 13.63943856854202),
      (-87.99396217355365, 12.890920733564085),
      (-86.28009498605365, 11.171791270208502),
      (-86.60968482980365, 10.394749848494728),
      (-84.91779029855365, 9.203908557876208),
      (-84.58820045480365, 8.726417117304832),
      (-82.17120826730365, 7.704314168195366),
      (-81.31427467355365, 6.701561688309798),
      (-79.64435279855365, 6.963360801589284),
      (-80.14972389230365, 8.074313176857796),
      (-79.24884498605365, 8.661256539681315),
      (-78.67755592355365, 8.509171427457526),
      (-78.56769264230365, 7.747860548091974),
      (-77.68878639230365, 6.832479161099103),
      (-77.00763404855365, 8.400502150062856),
      (-77.16144264230365, 8.900122834773223),
      (-79.09503639230365, 9.962213910373398),
      (-80.06183326730365, 9.594105879246467),
      (-81.29230201730365, 9.095443159836616),
      (-82.02264812311589, 9.404240152262705),
      (-82.81366374811589, 9.945741454623418),
      (-83.47284343561589, 10.875001838805666),
      (-82.85760906061589, 14.794687086681176),
      (-83.12128093561589, 15.26155118610412),
      (-84.79120281061589, 16.128830744255552),
      (-88.41669109186589, 15.959896599637476),
      (-86.21942546686589, 21.615194199233745),
      (-87.99921062311589, 21.839721773016596),
      (-90.24042156061589, 21.533461083001235),
      (-91.62469890436589, 18.91527033275978),
      (-94.28339031061589, 18.519870571992328),
      (-93.93182781061589, 17.43308907587558),
      (-94.43719890436589, 15.85424027498519),
      (-91.17999732980365, 13.63943856854202)]"

definition mbc_polygon :: polygon where
  "mbc_polygon = Polygon mbc_coords"

subsection \<open>The containment test\<close>

text \<open>
  \<^verbatim>\<open>point.within(polygon)\<close> is the geometry library's predicate: it holds when the
  point lies in the interior of the polygon, and fails for a point of the polygon's
  boundary as for a point outside. The library decides where a point lies by counting
  the crossings of the ring with the ray that leaves the point in the direction of
  growing \<open>x\<close>; it computes the orientation test with exact sign, so the outcome is that
  of the same steps over the rational numbers.
\<close>

datatype location = Interior | Boundary | Exterior

record ray_crossing_counter =
  crossingCount :: nat
  isPointOnSegment :: bool

definition orientation_index :: "coord \<Rightarrow> coord \<Rightarrow> coord \<Rightarrow> int" where
  "orientation_index p1 p2 q =
     (let det = (fst p2 - fst p1) * (snd q - snd p1) - (snd p2 - snd p1) * (fst q - fst p1)
      in if det > 0 then 1 else if det < 0 then - 1 else 0)"

definition countSegment :: "coord \<Rightarrow> coord \<Rightarrow> coord \<Rightarrow> ray_crossing_counter \<Rightarrow> ray_crossing_counter" where
  "countSegment pt p1 p2 c =
     (if fst p1 < fst pt \<and> fst p2 < fst pt then c
      else if fst pt = fst p2 \<and> snd pt = snd p2 then c\<lparr>isPointOnSegment := True\<rparr>
      else if snd p1 = snd pt \<and> snd p2 = snd pt then
        (let minx = min (fst p1) (fst p2); maxx = max (fst p1) (fst p2)
         in if fst pt \<ge> minx \<and> fst pt \<le> maxx then c\<lparr>isPointOnSegment := True\<rparr> else c)
      else if (snd p1 > snd pt \<and> snd p2 \<le> snd pt) \<or> (snd p2 > snd pt \<and> snd p1 \<le> snd pt) then
        (let sign = orientation_index p1 p2 pt
         in if sign = 0 then c\<lparr>isPointOnSegment := True\<rparr>
            else if (if snd p2 < snd p1 then - sign else sign) > 0
                 then c\<lparr>crossingCount := crossingCount c + 1\<rparr>
                 else c)
      else c)"

definition getLocation :: "ray_crossing_counter \<Rightarrow> location" where
  "getLocation c =
     (if isPointOnSegment c then Boundary
      else if crossingCount c mod 2 = 1 then Interior
      else Exterior)"

text \<open>The segments of the ring in order; the walk stops at the first segment that holds the point.\<close>

fun countRing :: "coord \<Rightarrow> coord list \<Rightarrow> ray_crossing_counter \<Rightarrow> ray_crossing_counter" where
  "countRing pt (p1 # p2 # ring) c =
     (let c' = countSegment pt p1 p2 c
      in if isPointOnSegment c' then c' else countRing pt (p2 # ring) c')"
| "countRing pt ring c = c"

definition locatePointInRing :: "coord \<Rightarrow> coord list \<Rightarrow> location" where
  "locatePointInRing pt ring =
     getLocation (countRing pt ring \<lparr>crossingCount = 0, isPointOnSegment = False\<rparr>)"

text \<open>
  The polygon of the script has no holes. A point with a null coordinate is in no
  polygon; the cleaned table holds none. (The name \<open>within\<close> is taken by the
  library's filter notation, hence \<open>within_poly\<close>.)
\<close>

definition within_poly :: "point \<Rightarrow> polygon \<Rightarrow> bool" where
  "within_poly g poly =
     (case (point_x g, point_y g) of
        (Some px, Some py) \<Rightarrow> (locatePointInRing (px, py) (exterior poly) = Interior)
      | _ \<Rightarrow> False)"

subsection \<open>The boundary of a ring\<close>

text \<open>
  A point lies on the closed segment from \<open>a\<close> to \<open>b\<close> when it is collinear with the
  two ends and inside their bounding box; it lies on a ring when it lies on one of the
  segments between consecutive vertices.
\<close>

definition on_segment :: "coord \<Rightarrow> coord \<Rightarrow> coord \<Rightarrow> bool" where
  "on_segment pt a b =
     (orientation_index a b pt = 0
      \<and> min (fst a) (fst b) \<le> fst pt \<and> fst pt \<le> max (fst a) (fst b)
      \<and> min (snd a) (snd b) \<le> snd pt \<and> snd pt \<le> max (snd a) (snd b))"

fun on_ring :: "coord \<Rightarrow> coord list \<Rightarrow> bool" where
  "on_ring pt (a # b # ring) = (on_segment pt a b \<or> on_ring pt (b # ring))"
| "on_ring pt ring = False"

text \<open>
  Whether one step of the locator raises the on-segment flag, and whether some step of
  the walk along the ring does.
\<close>

definition hits :: "coord \<Rightarrow> coord \<Rightarrow> coord \<Rightarrow> bool" where
  "hits pt p1 p2 = isPointOnSegment (countSegment pt p1 p2 \<lparr>crossingCount = 0, isPointOnSegment = False\<rparr>)"

fun any_hit :: "coord \<Rightarrow> coord list \<Rightarrow> bool" where
  "any_hit pt (p1 # p2 # ring) = (hits pt p1 p2 \<or> any_hit pt (p2 # ring))"
| "any_hit pt ring = False"

subsection \<open>The containment rule of the specification\<close>

text \<open>
  The specification asks for standard planar point-in-polygon semantics by ray casting.
  Stated on its own, without the locator: the ray leaves the point in the direction of
  growing \<open>x\<close>; a segment of the ring crosses it when the height of the point lies
  between the heights of the segment's ends (the lower end counted, the upper not) and the
  segment passes that height to the right of the point. \<open>ray_x a b h\<close> is the \<open>x\<close> at
  which the line through \<open>a\<close> and \<open>b\<close> has height \<open>h\<close>.
\<close>

definition ray_x :: "coord \<Rightarrow> coord \<Rightarrow> rat \<Rightarrow> rat" where
  "ray_x a b h = fst a + (h - snd a) * (fst b - fst a) / (snd b - snd a)"

definition crosses_ray :: "coord \<Rightarrow> coord \<Rightarrow> coord \<Rightarrow> bool" where
  "crosses_ray pt a b =
     (min (snd a) (snd b) \<le> snd pt \<and> snd pt < max (snd a) (snd b)
      \<and> fst pt < ray_x a b (snd pt))"

fun crossing_number :: "coord \<Rightarrow> coord list \<Rightarrow> nat" where
  "crossing_number pt (a # b # ring) =
     (if crosses_ray pt a b then 1 else 0) + crossing_number pt (b # ring)"
| "crossing_number pt ring = 0"

text \<open>
  A point off the ring is strictly inside the polygon when the number of crossings is odd
  and strictly outside when it is even.
\<close>

definition strictly_inside :: "coord \<Rightarrow> coord list \<Rightarrow> bool" where
  "strictly_inside pt ring = (\<not> on_ring pt ring \<and> odd (crossing_number pt ring))"

definition strictly_outside :: "coord \<Rightarrow> coord list \<Rightarrow> bool" where
  "strictly_outside pt ring = (\<not> on_ring pt ring \<and> even (crossing_number pt ring))"

subsection \<open>The geolocated and the filtered table\<close>

record geo_row = cleaned_row +
  geometry :: point

record geodataframe =
  frame_rows :: "geo_row frame"
  crs :: string

text \<open>
  Line 107: \<^verbatim>\<open>[Point(xy) for xy in zip(df["longitude"], df["latitude"])]\<close>.
\<close>

definition point_column :: "cleaned_row frame \<Rightarrow> point list" where
  "point_column df =
     map (\<lambda>xy. Point (fst xy) (snd xy))
       (zip (map (\<lambda>(i, r). longitude r) df) (map (\<lambda>(i, r). latitude r) df))"

text \<open>
  Line 109: the geometry list is attached by position, the rows keep their order and
  labels, and the container carries the reference system it is given.
\<close>

definition GeoDataFrame :: "cleaned_row frame \<Rightarrow> point list \<Rightarrow> string \<Rightarrow> geodataframe" where
  "GeoDataFrame df geom crs_name =
     \<lparr>frame_rows = map (\<lambda>((i, r), g). (i, cleaned_row.extend r (geo_row.fields g))) (zip df geom),
      crs = crs_name\<rparr>"

definition geometrize :: "cleaned_row frame \<Rightarrow> geodataframe" where
  "geometrize df = GeoDataFrame df (point_column df) ''EPSG:4326''"

text \<open>Line 112: \<^verbatim>\<open>gdf[gdf.geometry.within(mbc_polygon)]\<close>.\<close>

definition spatial_filter :: "geodataframe \<Rightarrow> geodataframe" where
  "spatial_filter gdf =
     gdf\<lparr>frame_rows := filter (\<lambda>(i, r). within_poly (geometry r) mbc_polygon) (frame_rows gdf)\<rparr>"

section \<open>The reporter (lines 139 to 149)\<close>

subsection \<open>Counts by year\<close>

text \<open>
  \<^verbatim>\<open>Series.value_counts()\<close> leaves out the null cells, counts each distinct value and
  lists the values by falling count. \<^verbatim>\<open>sort_index()\<close> then orders the entries by
  their key (the value counted), ascending.
\<close>

definition value_counts :: "'a option list \<Rightarrow> ('a \<times> nat) list" where
  "value_counts col =
     (let vals = List.map_filter (\<lambda>v. v) col;
          keys = rev (remdups (rev vals))
      in sort_key (\<lambda>(k, n). - int n) (map (\<lambda>k. (k, count_list vals k)) keys))"

definition sort_index :: "('a::linorder \<times> nat) list \<Rightarrow> ('a \<times> nat) list" where
  "sort_index counts = sort_key fst counts"

text \<open>Line 139: \<^verbatim>\<open>mbc_gdf["year"].value_counts().sort_index()\<close>.\<close>

definition year_counts :: "geodataframe \<Rightarrow> (int \<times> nat) list" where
  "year_counts mbc_gdf = sort_index (value_counts (map (\<lambda>(i, r). year_col r) (frame_rows mbc_gdf)))"

subsection \<open>The export\<close>

text \<open>
  \<^verbatim>\<open>mbc_gdf.to_csv(path, index=False)\<close> writes a header record with the column names and
  one record per row. How a number and a geometry are written as text is the library's
  business and is a parameter here; a null cell is written as the empty string.
\<close>

record cell_format =
  show_float :: "rat \<Rightarrow> string"
  show_int :: "int \<Rightarrow> string"
  show_nat :: "nat \<Rightarrow> string"
  show_geometry :: "point \<Rightarrow> string"

definition cell :: "('a \<Rightarrow> string) \<Rightarrow> 'a option \<Rightarrow> string" where
  "cell sh v = (case v of None \<Rightarrow> [] | Some a \<Rightarrow> sh a)"

text \<open>The columns of the filtered table, in the order the script built them.\<close>

definition columns :: "string list" where
  "columns = [''latitude'', ''longitude'', ''year'', ''month'', ''day'', ''type'',
              ''basisOfRecord'', ''gbifID'', ''occurrenceID'', ''system:time_start'',
              ''geometry'']"

definition row_cells :: "cell_format \<Rightarrow> geo_row \<Rightarrow> string list" where
  "row_cells fmt r =
     [cell (show_float fmt) (latitude r), cell (show_float fmt) (longitude r),
      cell (show_int fmt) (year_col r), cell (show_nat fmt) (month_col r),
      cell (show_nat fmt) (day_col r), cell id (kept_type r),
      cell id (kept_basisOfRecord r), cell id (kept_gbifID r),
      cell id (kept_occurrenceID r), cell id (time_start r),
      show_geometry fmt (geometry r)]"

text \<open>
  The records of the file. With \<^verbatim>\<open>index=True\<close> (the library's default) every record
  would start with the index: an unnamed column in the header, the row's label in a row.
\<close>

definition to_csv_records :: "cell_format \<Rightarrow> bool \<Rightarrow> geodataframe \<Rightarrow> string list list" where
  "to_csv_records fmt index gdf =
     (if index then ([] # columns) # map (\<lambda>(i, r). show_nat fmt i # row_cells fmt r) (frame_rows gdf)
      else columns # map (\<lambda>(i, r). row_cells fmt r) (frame_rows gdf))"

text \<open>
  A record becomes a line: its fields joined by commas, a field that holds a comma, a
  double quote or a line break written in double quotes with its quotes doubled.
\<close>

definition needs_quoting :: "string \<Rightarrow> bool" where
  "needs_quoting s = (\<exists>c \<in> set s. c = CHR '','' \<or> c = CHR 0x22 \<or> c = CHR 0x0A \<or> c = CHR 0x0D)"

definition quote_field :: "string \<Rightarrow> string" where
  "quote_field s =
     (if needs_quoting s
      then [CHR 0x22] @ concat (map (\<lambda>c. if c = CHR 0x22 then [c, c] else [c]) s) @ [CHR 0x22]
      else s)"

fun join_fields :: "string list \<Rightarrow> string" where
  "join_fields [] = []"
| "join_fields [f] = f"
| "join_fields (f # g # fs) = f @ '','' @ join_fields (g # fs)"

definition to_csv :: "cell_format \<Rightarrow> bool \<Rightarrow> geodataframe \<Rightarrow> string list" where
  "to_csv fmt index gdf = map (\<lambda>fields. join_fields (map quote_field fields)) (to_csv_records fmt index gdf)"

section \<open>Inputs of the scenarios\<close>

text \<open>The years of the rows of a table, nulls left out.\<close>

definition years_present :: "geodataframe \<Rightarrow> int list" where
  "years_present gdf = List.map_filter (\<lambda>(i, r). year_col r) (frame_rows gdf)"

text \<open>
  A small input file: a sighting inside the corridor dated 01/15/47, a row without
  longitude, a sighting at (0, 0) dated 06/01/99, and a row without date. Below it, the
  cleaned table the script makes of it, and a file whose only row carries a day-first date.
\<close>

definition scenario_rows :: "source_row list" where
  "scenario_rows =
     [\<lparr>decimalLatitude = Some 10, decimalLongitude = Some (- 85), date_text = Some ''01/15/47'',
       type_col = None, basisOfRecord = Some ''HUMAN_OBSERVATION'',
       gbifID = Some ''1001'', occurrenceID = Some ''occ-a''\<rparr>,
      \<lparr>decimalLatitude = Some 10, decimalLongitude = None, date_text = Some ''01/15/47'',
       type_col = None, basisOfRecord = Some ''HUMAN_OBSERVATION'',
       gbifID = Some ''1002'', occurrenceID = Some ''occ-b''\<rparr>,
      \<lparr>decimalLatitude = Some 0, decimalLongitude = Some 0, date_text = Some ''06/01/99'',
       type_col = None, basisOfRecord = Some ''PRESERVED_SPECIMEN'',
       gbifID = Some ''1003'', occurrenceID = Some ''occ-c''\<rparr>,
      \<lparr>decimalLatitude = Some 10, decimalLongitude = Some (- 85), date_text = None,
       type_col = None, basisOfRecord = Some ''HUMAN_OBSERVATION'',
       gbifID = Some ''1004'', occurrenceID = Some ''occ-d''\<rparr>]"

definition scenario_cleaned :: "cleaned_row frame" where
  "scenario_cleaned =
     [(0, \<lparr>latitude = Some 10, longitude = Some (- 85), year_col = Some 1947,
           month_col = Some 1, day_col = Some 15, kept_type = None,
           kept_basisOfRecord = Some ''HUMAN_OBSERVATION'', kept_gbifID = Some ''1001'',
           kept_occurrenceID = Some ''occ-a'', time_start = Some ''1947-01-15T00:00:00''\<rparr>),
      (2, \<lparr>latitude = Some 0, longitude = Some 0, year_col = Some 1999,
           month_col = Some 6, day_col = Some 1, kept_type = None,
           kept_basisOfRecord = Some ''PRESERVED_SPECIMEN'', kept_gbifID = Some ''1003'',
           kept_occurrenceID = Some ''occ-c'', time_start = Some ''1999-06-01T00:00:00''\<rparr>)]"

definition malformed_rows :: "source_row list" where
  "malformed_rows =
     [\<lparr>decimalLatitude = Some 10, decimalLongitude = Some (- 85), date_text = Some ''31/12/98'',
       type_col = None, basisOfRecord = Some ''HUMAN_OBSERVATION'',
       gbifID = Some ''1005'', occurrenceID = Some ''occ-e''\<rparr>]"

text \<open>
  A file with one sighting at the second vertex of the ring, and its cleaned table.
\<close>

definition vertex_rows :: "source_row list" where
  "vertex_rows =
     [\<lparr>decimalLatitude = Some 12.890920733564085, decimalLongitude = Some (-87.99396217355365),
       date_text = Some ''03/09/31'', type_col = None,
       basisOfRecord = Some ''HUMAN_OBSERVATION'',
       gbifID = Some ''1006'', occurrenceID = Some ''occ-f''\<rparr>]"

definition vertex_cleaned :: "cleaned_row frame" where
  "vertex_cleaned =
     [(0, \<lparr>latitude = Some 12.890920733564085, longitude = Some (-87.99396217355365),
           year_col = Some 1931, month_col = Some 3, day_col = Some 9, kept_type = None,
           kept_basisOfRecord = Some ''HUMAN_OBSERVATION'', kept_gbifID = Some ''1006'',
           kept_occurrenceID = Some ''occ-f'', time_start = Some ''1931-03-09T00:00:00''\<rparr>)]"

section \<open>Properties of the date steps\<close>

lemma digit_le_9: "digit c = Some n \<Longrightarrow> n \<le> 9"
  by (auto simp: digit_def split: if_splits)

lemma parse_year2_range: "parse_year2 s = Some y \<Longrightarrow> 1969 \<le> y \<and> y \<le> 2068"
  by (auto simp: parse_year2_def Let_def split: list.splits option.splits if_splits dest!: digit_le_9)

text \<open>A string that parses gives a calendar date whose year is the one read from its last field.\<close>

lemma strptime_SomeD:
  assumes "strptime s = Some d"
  shows "valid_date d \<and> (\<exists>ys. parse_year2 ys = Some (year d))"
proof -
  from assms obtain ms ds ys where parts: "split_on CHR ''/'' s = [ms, ds, ys]"
    by (auto simp: strptime_def split: list.splits)
  with assms have fields:
    "(case (parse_month ms, parse_day ds, parse_year2 ys) of
        (Some m, Some d, Some y) \<Rightarrow>
          (let t = \<lparr>year = y, month = m, day = d\<rparr> in if valid_date t then Some t else None)
      | _ \<Rightarrow> None) = Some d"
    by (simp add: strptime_def)
  then show ?thesis
    by (cases "parse_month ms"; cases "parse_day ds"; cases "parse_year2 ys")
       (auto simp: Let_def split: if_splits)
qed

lemma strptime_valid:
  "strptime s = Some d \<Longrightarrow> valid_date d \<and> 1969 \<le> year d \<and> year d \<le> 2068"
  using strptime_SomeD parse_year2_range by blast

lemma to_datetime_cell_Some:
  "to_datetime_cell c = Inr (Some d) \<Longrightarrow> valid_date d \<and> 1969 \<le> year d \<and> year d \<le> 2068"
  by (auto simp: to_datetime_cell_def split: option.splits if_splits dest: strptime_valid)

text \<open>
  Between 2026 and 2399 a leap year is a leap year a century earlier too, so the
  replaced date exists and \<open>replace\<close> does not raise.
\<close>

lemma is_leap_century_earlier:
  assumes "is_leap y" "2026 \<le> y" "y < 2400"
  shows "is_leap (y - 100)"
proof -
  have m4: "(y - 100) mod 4 = y mod 4"
    using mod_mult_self1 [of y "- 25" 4] by simp
  have m100: "(y - 100) mod 100 = y mod 100"
    using mod_mult_self1 [of y "- 1" 100] by simp
  have "y mod 400 \<noteq> 0"
  proof
    assume "y mod 400 = 0"
    then obtain k where k: "y = 400 * k" by (auto simp: mod_eq_0_iff_dvd)
    show False
    proof (cases "k \<le> 5")
      case True
      then have "400 * k \<le> 2000" by simp
      with k assms(2) show False by simp
    next
      case False
      then have "2400 \<le> 400 * k" by simp
      with k assms(3) show False by simp
    qed
  qed
  with assms(1) have "y mod 4 = 0" "y mod 100 \<noteq> 0"
    by (auto simp: is_leap_def)
  with m4 m100 show ?thesis
    by (simp add: is_leap_def)
qed

lemma valid_date_century_earlier:
  assumes "valid_date d" "2026 \<le> year d" "year d < 2400"
  shows "valid_date (d\<lparr>year := year d - 100\<rparr>)"
proof -
  have "days_in_month (year d) (month d) \<le> days_in_month (year d - 100) (month d)"
    using is_leap_century_earlier [of "year d"] assms(2,3)
    by (auto simp: days_in_month_def)
  with assms show ?thesis
    by (simp add: valid_date_def)
qed

lemma correct_future_dates_shift:
  assumes "valid_date d" "2026 \<le> year d" "year d < 2400"
  shows "correct_future_dates (Some d) = Inr (Some (d\<lparr>year := year d - 100\<rparr>))"
  using valid_date_century_earlier [OF assms] assms(2)
  by (simp add: correct_future_dates_def replace_year_def Let_def)

lemma correct_future_dates_keep:
  "year d < 2026 \<Longrightarrow> correct_future_dates (Some d) = Inr (Some d)"
  by (simp add: correct_future_dates_def)

lemma correct_future_dates_null: "correct_future_dates None = Inr None"
  by (simp add: correct_future_dates_def)

lemma correct_future_dates_of_parsed:
  assumes "to_datetime_cell c = Inr date_value"
  shows "correct_future_dates date_value =
           Inr (case date_value of
                  None \<Rightarrow> None
                | Some d \<Rightarrow> if year d \<ge> 2026 then Some (d\<lparr>year := year d - 100\<rparr>) else Some d)"
proof (cases date_value)
  case None
  then show ?thesis by (simp add: correct_future_dates_null)
next
  case (Some d)
  with assms have "valid_date d" "year d \<le> 2068"
    using to_datetime_cell_Some by blast+
  then show ?thesis
    using Some correct_future_dates_shift [of d] correct_future_dates_keep [of d]
    by (cases "2026 \<le> year d") auto
qed

lemma parse_scenario_47:
  "to_datetime_cell (Some ''01/15/47'') = Inr (Some \<lparr>year = 2047, month = 1, day = 15\<rparr>)"
  by code_simp

lemma parse_scenario_99:
  "to_datetime_cell (Some ''06/01/99'') = Inr (Some \<lparr>year = 1999, month = 6, day = 1\<rparr>)"
  by code_simp

text \<open>
  C3. Every value of the parsed date column is corrected without error: a null stays
  null, a date of year 2026 or later becomes the same month and day a century earlier,
  an earlier date stays as it is. The string 01/15/47 parses to 2047-01-15 and is
  corrected to 1947-01-15; 06/01/99 parses to 1999-06-01 and stays.
\<close>

theorem correct_future_dates_parsed:
  assumes "to_datetime_cell c = Inr date_value"
  shows "correct_future_dates date_value =
           Inr (case date_value of
                  None \<Rightarrow> None
                | Some d \<Rightarrow> if year d \<ge> 2026 then Some (d\<lparr>year := year d - 100\<rparr>) else Some d)
         \<and> to_datetime_cell (Some ''01/15/47'') = Inr (Some \<lparr>year = 2047, month = 1, day = 15\<rparr>)
         \<and> correct_future_dates (Some \<lparr>year = 2047, month = 1, day = 15\<rparr>)
             = Inr (Some \<lparr>year = 1947, month = 1, day = 15\<rparr>)
         \<and> to_datetime_cell (Some ''06/01/99'') = Inr (Some \<lparr>year = 1999, month = 6, day = 1\<rparr>)
         \<and> correct_future_dates (Some \<lparr>year = 1999, month = 6, day = 1\<rparr>)
             = Inr (Some \<lparr>year = 1999, month = 6, day = 1\<rparr>)"
proof -
  have s47: "correct_future_dates (Some \<lparr>year = 2047, month = 1, day = 15\<rparr>)
             = Inr (Some \<lparr>year = 1947, month = 1, day = 15\<rparr>)"
    using correct_future_dates_of_parsed [OF parse_scenario_47] by simp
  have s99: "correct_future_dates (Some \<lparr>year = 1999, month = 6, day = 1\<rparr>)
             = Inr (Some \<lparr>year = 1999, month = 6, day = 1\<rparr>)"
    using correct_future_dates_of_parsed [OF parse_scenario_99] by simp
  from correct_future_dates_of_parsed [OF assms] parse_scenario_47 s47 parse_scenario_99 s99
  show ?thesis by blast
qed

theorem correct_future_dates_parsed_witness:
  "to_datetime_cell (Some ''03/09/31'') = Inr (Some \<lparr>year = 2031, month = 3, day = 9\<rparr>)
   \<and> correct_future_dates (Some \<lparr>year = 2031, month = 3, day = 9\<rparr>)
       = Inr (Some \<lparr>year = 1931, month = 3, day = 9\<rparr>)"
proof -
  have h: "to_datetime_cell (Some ''03/09/31'') = Inr (Some \<lparr>year = 2031, month = 3, day = 9\<rparr>)"
    by code_simp
  from correct_future_dates_parsed [OF h] h show ?thesis by simp
qed

text \<open>
  C10. On a calendar date of a year before 2126 the correction returns a date of a year
  before 2026, on which a second correction changes nothing.
\<close>

theorem correct_future_dates_idempotent:
  assumes "valid_date d" "year d < 2126"
  shows "\<exists>d'. correct_future_dates (Some d) = Inr (Some d')
              \<and> year d' < 2026
              \<and> correct_future_dates (Some d') = Inr (Some d')"
proof (cases "2026 \<le> year d")
  case True
  with assms have "correct_future_dates (Some d) = Inr (Some (d\<lparr>year := year d - 100\<rparr>))"
    by (intro correct_future_dates_shift) auto
  moreover have "year (d\<lparr>year := year d - 100\<rparr>) < 2026"
    using assms(2) by simp
  ultimately show ?thesis
    using correct_future_dates_keep by blast
next
  case False
  then show ?thesis
    using correct_future_dates_keep [of d] by auto
qed

theorem correct_future_dates_idempotent_witness:
  "valid_date \<lparr>year = 2047, month = 1, day = 15\<rparr>
   \<and> (\<exists>d'. correct_future_dates (Some \<lparr>year = 2047, month = 1, day = 15\<rparr>) = Inr (Some d')
          \<and> year d' < 2026 \<and> correct_future_dates (Some d') = Inr (Some d'))"
proof -
  have h: "valid_date \<lparr>year = 2047, month = 1, day = 15\<rparr>"
    by (simp add: valid_date_def days_in_month_def)
  from correct_future_dates_idempotent [OF h] h show ?thesis by simp
qed

section \<open>Properties of the cleaner\<close>

lemma clean_scenario: "clean (read_csv scenario_rows) = Inr scenario_cleaned"
  by code_simp

text \<open>
  C1. The parse of line 21 is called with the default \<^verbatim>\<open>errors="raise"\<close>. On a file
  whose only row has both coordinates and the date text 31/12/98 (no month/day/year date)
  the cleaning stage ends in \<^verbatim>\<open>ValueError\<close>; it does not make the row null-dated.
\<close>

theorem clean_raises_on_malformed_date:
  "clean (read_csv malformed_rows) = Inl ValueError"
  by code_simp

lemma traverse_length: "traverse f xs = Inr ys \<Longrightarrow> length ys = length xs"
  by (induction xs arbitrary: ys) (auto split: sum.splits)

lemma traverse_Inl:
  "x \<in> set xs \<Longrightarrow> f x = Inl e \<Longrightarrow> traverse f xs = Inl ValueError"
proof (induction xs)
  case Nil
  then show ?case by simp
next
  case (Cons a xs)
  have only: "u = ValueError" for u :: error by (cases u) simp
  show ?case
  proof (cases "f a")
    case (Inl u)
    then show ?thesis using only [of u] by simp
  next
    case (Inr b)
    with Cons have "traverse f xs = Inl ValueError" by auto
    with Inr show ?thesis by simp
  qed
qed

text \<open>Any row with coordinates whose date text does not parse ends the stage.\<close>

lemma clean_raises:
  assumes "(i, r) \<in> set df" "decimalLatitude r \<noteq> None" "decimalLongitude r \<noteq> None"
    and "date_text r = Some s" "s \<noteq> []" "s \<notin> set nat_strings" "strptime s = None"
  shows "clean df = Inl ValueError"
proof -
  let ?df1 = "dropna (\<lambda>r. decimalLatitude r \<noteq> None \<and> decimalLongitude r \<noteq> None) df"
  have "(i, r) \<in> set ?df1"
    using assms(1-3) by (simp add: dropna_def)
  then have "date_text r \<in> set (map (\<lambda>(i, r). date_text r) ?df1)"
    by force
  moreover have "to_datetime_cell (date_text r) = Inl ValueError"
    using assms(4-7) by (simp add: to_datetime_cell_def)
  ultimately have "to_datetime (map (\<lambda>(i, r). date_text r) ?df1) = Inl ValueError"
    unfolding to_datetime_def by (rule traverse_Inl)
  then show ?thesis
    by (simp add: clean_def Let_def)
qed

lemma clean_row_origin:
  assumes "clean df = Inr out" "(i, r) \<in> set out"
  shows "\<exists>s. (i, s) \<in> set df \<and> decimalLatitude s \<noteq> None \<and> decimalLongitude s \<noteq> None
            \<and> latitude r = decimalLatitude s \<and> longitude r = decimalLongitude s
            \<and> year_col r \<noteq> None"
proof -
  let ?df1 = "dropna (\<lambda>r. decimalLatitude r \<noteq> None \<and> decimalLongitude r \<noteq> None) df"
  from assms(1) obtain corrected where
    out: "out = map (\<lambda>(i, r). (i, finish_row r))
            (dropna (\<lambda>r. date r \<noteq> None)
              (dropna (\<lambda>r. year_col r \<noteq> None)
                (map (\<lambda>(i, r). (i, r\<lparr>year_col := to_numeric (year_col r)\<rparr>))
                  (map (\<lambda>((i, r), d). (i, derive_row r d)) (zip ?df1 corrected)))))"
    by (auto simp: clean_def Let_def split: sum.splits)
  from assms(2) obtain s d where
    src: "((i, s), d) \<in> set (zip ?df1 corrected)"
    and r: "r = finish_row ((derive_row s d)\<lparr>year_col := to_numeric (year_col (derive_row s d))\<rparr>)"
    and yr: "to_numeric (year_col (derive_row s d)) \<noteq> None"
    unfolding out by (auto simp: dropna_def)
  from src have "(i, s) \<in> set ?df1" by (rule set_zip_leftD)
  then have "(i, s) \<in> set df" "decimalLatitude s \<noteq> None" "decimalLongitude s \<noteq> None"
    by (auto simp: dropna_def)
  moreover from r yr have "latitude r = decimalLatitude s" "longitude r = decimalLongitude s"
    "year_col r \<noteq> None"
    by (simp_all add: finish_row_def derive_row_def)
  ultimately show ?thesis by blast
qed

lemma read_csv_label: "(i, s) \<in> set (read_csv file_rows) \<Longrightarrow> i < length file_rows \<and> s = file_rows ! i"
  by (auto simp: read_csv_def in_set_zip)

section \<open>Properties of the geometrizer, the polygon and the reporter\<close>

lemma extend_sel:
  "latitude (cleaned_row.extend r (geo_row.fields g)) = latitude r"
  "longitude (cleaned_row.extend r (geo_row.fields g)) = longitude r"
  "year_col (cleaned_row.extend r (geo_row.fields g)) = year_col r"
  "geometry (cleaned_row.extend r (geo_row.fields g)) = g"
  "cleaned_row.truncate (cleaned_row.extend r (geo_row.fields g)) = r"
  by (simp_all add: cleaned_row.defs geo_row.defs kept_columns.defs)

lemma frame_rows_geometrize:
  "frame_rows (geometrize df) =
     map (\<lambda>(i, r). (i, cleaned_row.extend r (geo_row.fields (Point (longitude r) (latitude r))))) df"
  by (induction df) (auto simp: geometrize_def GeoDataFrame_def point_column_def)

text \<open>
  C5. The geolocated table has the rows of the cleaned table, in order and under the same
  labels, each with one point whose \<open>x\<close> is the row's longitude and whose \<open>y\<close> is
  its latitude, and it is tagged EPSG:4326.
\<close>

theorem geometrize_points:
  "map fst (frame_rows (geometrize df)) = map fst df
   \<and> map (\<lambda>(i, r). cleaned_row.truncate r) (frame_rows (geometrize df)) = map snd df
   \<and> map (\<lambda>(i, r). geometry r) (frame_rows (geometrize df))
       = map (\<lambda>(i, r). Point (longitude r) (latitude r)) df
   \<and> map (\<lambda>(i, r). (point_x (geometry r), point_y (geometry r))) (frame_rows (geometrize df))
       = map (\<lambda>(i, r). (longitude r, latitude r)) df
   \<and> length (frame_rows (geometrize df)) = length df
   \<and> crs (geometrize df) = ''EPSG:4326''"
  by (simp add: frame_rows_geometrize extend_sel comp_def case_prod_unfold)
     (simp add: geometrize_def GeoDataFrame_def)


lemma header_line:
  "join_fields (map quote_field columns)
     = ''latitude,longitude,year,month,day,type,basisOfRecord,gbifID,occurrenceID,system:time_start,geometry''"
  by (simp add: columns_def quote_field_def needs_quoting_def)

lemma records_without_index:
  "to_csv_records fmt False gdf = columns # map (\<lambda>(i, r). row_cells fmt r) (frame_rows gdf)"
  by (simp add: to_csv_records_def)

lemma length_row_cells: "length (row_cells fmt r) = 11"
  by (simp add: row_cells_def)

lemma last_row_cells: "last (row_cells fmt r) = show_geometry fmt (geometry r)"
  by (simp add: row_cells_def)

lemma hd_row_cells: "hd (row_cells fmt r) = cell (show_float fmt) (latitude r)"
  by (simp add: row_cells_def)

lemma map_length_records:
  "map length (to_csv_records fmt False gdf) = replicate (Suc (length (frame_rows gdf))) 11"
proof -
  have "map (\<lambda>x. length (case x of (i, r) \<Rightarrow> row_cells fmt r)) rs = replicate (length rs) 11" for rs :: "geo_row frame"
    by (induction rs) (auto simp: length_row_cells)
  then show ?thesis
    by (simp add: records_without_index columns_def comp_def)
qed

text \<open>
  C8. Written with \<^verbatim>\<open>index=False\<close>, the file starts with the line of the eleven column
  names, \<open>latitude\<close> first (no index column before it) and \<open>geometry\<close> last; it has one
  more line per row; every record has eleven fields, the first the latitude and the last the
  text of the row's geometry; the fields of a record are joined by commas.
\<close>

theorem to_csv_columns:
  "hd (to_csv fmt False gdf)
     = ''latitude,longitude,year,month,day,type,basisOfRecord,gbifID,occurrenceID,system:time_start,geometry''
   \<and> hd (to_csv_records fmt False gdf) = columns
   \<and> last columns = ''geometry''
   \<and> hd columns = ''latitude''
   \<and> length (to_csv fmt False gdf) = Suc (length (frame_rows gdf))
   \<and> map length (to_csv_records fmt False gdf) = replicate (Suc (length (frame_rows gdf))) 11
   \<and> map last (tl (to_csv_records fmt False gdf))
       = map (\<lambda>(i, r). show_geometry fmt (geometry r)) (frame_rows gdf)
   \<and> map hd (tl (to_csv_records fmt False gdf))
       = map (\<lambda>(i, r). cell (show_float fmt) (latitude r)) (frame_rows gdf)
   \<and> to_csv fmt False gdf
       = map (\<lambda>fields. join_fields (map quote_field fields)) (to_csv_records fmt False gdf)"
proof -
  have line1: "hd (to_csv fmt False gdf)
     = ''latitude,longitude,year,month,day,type,basisOfRecord,gbifID,occurrenceID,system:time_start,geometry''"
    using header_line by (simp add: to_csv_def records_without_index)
  have rec1: "hd (to_csv_records fmt False gdf) = columns"
    by (simp add: records_without_index)
  have cols: "last columns = ''geometry''" "hd columns = ''latitude''"
    by (simp_all add: columns_def)
  have len: "length (to_csv fmt False gdf) = Suc (length (frame_rows gdf))"
    by (simp add: to_csv_def records_without_index)
  have geo: "map last (tl (to_csv_records fmt False gdf))
       = map (\<lambda>(i, r). show_geometry fmt (geometry r)) (frame_rows gdf)"
    by (simp add: records_without_index comp_def case_prod_unfold last_row_cells)
  have lat: "map hd (tl (to_csv_records fmt False gdf))
       = map (\<lambda>(i, r). cell (show_float fmt) (latitude r)) (frame_rows gdf)"
    by (simp add: records_without_index comp_def case_prod_unfold hd_row_cells)
  have lines: "to_csv fmt False gdf
       = map (\<lambda>fields. join_fields (map quote_field fields)) (to_csv_records fmt False gdf)"
    by (simp add: to_csv_def)
  from line1 rec1 cols len map_length_records geo lat lines show ?thesis
    by blast
qed

lemma scaled_longitudes:
  "map fst (butlast mbc_coords) = map (\<lambda>k::int. (of_int k :: rat) / 10 ^ 14)
  [-9117999732980365, -8799396217355365, -8628009498605365, -8660968482980365, -8491779029855365,
   -8458820045480365, -8217120826730365, -8131427467355365, -7964435279855365, -8014972389230365,
   -7924884498605365, -7867755592355365, -7856769264230365, -7768878639230365, -7700763404855365,
   -7716144264230365, -7909503639230365, -8006183326730365, -8129230201730365, -8202264812311589,
   -8281366374811589, -8347284343561589, -8285760906061589, -8312128093561589, -8479120281061589,
   -8841669109186589, -8621942546686589, -8799921062311589, -9024042156061589, -9162469890436589,
   -9428339031061589, -9393182781061589, -9443719890436589]"
  by (simp add: mbc_coords_def)

lemma distinct_ring_vertices: "distinct (butlast mbc_coords)"
proof -
  have "distinct (map fst (butlast mbc_coords))"
    unfolding scaled_longitudes by (subst distinct_map) (simp add: inj_on_def)
  then show ?thesis by (simp add: distinct_map)
qed

text \<open>
  C9. The literal lists 34 pairs: 33 vertices, all different, and the first of them once
  more at the end, which closes the ring. The polygon is built from this literal, and the
  filter, the one stage that reads it, tests against it as it stands.
\<close>

theorem mbc_coords_closed_ring:
  "length mbc_coords = 34
   \<and> hd mbc_coords = last mbc_coords
   \<and> length (butlast mbc_coords) = 33
   \<and> distinct (butlast mbc_coords)
   \<and> exterior mbc_polygon = mbc_coords
   \<and> frame_rows (spatial_filter gdf)
       = filter (\<lambda>(i, r). within_poly (geometry r) (Polygon mbc_coords)) (frame_rows gdf)"
proof -
  have "length mbc_coords = 34" "hd mbc_coords = last mbc_coords"
    by (simp_all add: mbc_coords_def)
  moreover from this have "length (butlast mbc_coords) = 33" by simp
  moreover have "exterior mbc_polygon = mbc_coords" by (simp add: mbc_polygon_def)
  moreover have "frame_rows (spatial_filter gdf)
       = filter (\<lambda>(i, r). within_poly (geometry r) (Polygon mbc_coords)) (frame_rows gdf)"
    by (simp add: spatial_filter_def mbc_polygon_def)
  ultimately show ?thesis using distinct_ring_vertices by simp
qed

lemma map_filter_map_id: "List.map_filter (\<lambda>v. v) (map f xs) = List.map_filter f xs"
  by (induction xs) (auto simp: List.map_filter_simps split: option.splits)

lemma map_fst_value_counts_set:
  "set (map fst (value_counts col)) = set (List.map_filter (\<lambda>v. v) col)"
  by (simp add: value_counts_def Let_def image_image)

lemma distinct_map_sort_key:
  "distinct (map f (sort_key g xs)) = distinct (map f xs)"
  by (simp add: distinct_map)

lemma distinct_keys_value_counts: "distinct (map fst (value_counts col))"
  by (simp add: value_counts_def Let_def distinct_map_sort_key comp_def)

lemma snd_value_counts:
  "(k, n) \<in> set (value_counts col) \<Longrightarrow> n = count_list (List.map_filter (\<lambda>v. v) col) k"
  by (auto simp: value_counts_def Let_def)

lemma keys_sort_index:
  fixes counts :: "('a::linorder \<times> nat) list"
  assumes "distinct (map fst counts)"
  shows "map fst (sort_index counts) = sorted_list_of_set (set (map fst counts))"
proof (rule sorted_distinct_set_unique)
  show "sorted (map fst (sort_index counts))"
    by (simp add: sort_index_def)
  show "distinct (map fst (sort_index counts))"
    using assms by (simp add: sort_index_def distinct_map_sort_key)
  show "sorted (sorted_list_of_set (set (map fst counts)))" "distinct (sorted_list_of_set (set (map fst counts)))"
    by simp_all
  show "set (map fst (sort_index counts)) = set (sorted_list_of_set (set (map fst counts)))"
    by (simp add: sort_index_def)
qed

lemma map_snd_by_key:
  assumes "\<And>k n. (k, n) \<in> set xs \<Longrightarrow> n = h k"
  shows "map snd xs = map h (map fst xs)"
  using assms by (induction xs) auto

text \<open>
  C7. The keys of the histogram are the years present in the filtered table, each once, in
  ascending order; the count beside a year is the number of filtered rows of that year; no
  count is zero, so a year without rows has no entry.
\<close>

theorem year_counts_histogram:
  "map fst (year_counts mbc_gdf) = sorted_list_of_set (set (years_present mbc_gdf))
   \<and> sorted (map fst (year_counts mbc_gdf))
   \<and> distinct (map fst (year_counts mbc_gdf))
   \<and> map snd (year_counts mbc_gdf)
       = map (count_list (years_present mbc_gdf)) (map fst (year_counts mbc_gdf))
   \<and> 0 \<notin> set (map snd (year_counts mbc_gdf))"
proof -
  let ?col = "map (\<lambda>(i, r). year_col r) (frame_rows mbc_gdf)"
  let ?ys = "years_present mbc_gdf"
  let ?yc = "year_counts mbc_gdf"
  have vals: "List.map_filter (\<lambda>v. v) ?col = ?ys"
    by (simp add: years_present_def map_filter_map_id)
  have keys: "map fst ?yc = sorted_list_of_set (set ?ys)"
    using keys_sort_index [OF distinct_keys_value_counts, of ?col]
    by (simp add: year_counts_def map_fst_value_counts_set vals del: set_map)
  then have sorted_keys: "sorted (map fst ?yc)" and distinct_keys: "distinct (map fst ?yc)"
    by simp_all
  have entry: "n = count_list ?ys k" if "(k, n) \<in> set ?yc" for k n
    using that snd_value_counts [of k n ?col]
    by (simp add: year_counts_def sort_index_def vals)
  then have counts: "map snd ?yc = map (count_list ?ys) (map fst ?yc)"
    by (rule map_snd_by_key)
  have "0 \<notin> set (map snd ?yc)"
  proof
    assume "0 \<in> set (map snd ?yc)"
    then obtain k where in_yc: "(k, 0) \<in> set ?yc" by auto
    then have "count_list ?ys k = 0" using entry by fastforce
    moreover from in_yc have "k \<in> set (map fst ?yc)" by force
    then have "k \<in> set ?ys" unfolding keys by simp
    ultimately show False by (simp add: count_list_0_iff)
  qed
  with keys sorted_keys distinct_keys counts show ?thesis by blast
qed

section \<open>Properties of the pipeline\<close>

lemma geometrize_row_origin:
  assumes "(i, g) \<in> set (frame_rows (geometrize df))"
  shows "\<exists>r. (i, r) \<in> set df \<and> latitude g = latitude r \<and> longitude g = longitude r
            \<and> year_col g = year_col r"
proof -
  from assms obtain r where "(i, r) \<in> set df"
    and "g = cleaned_row.extend r (geo_row.fields (Point (longitude r) (latitude r)))"
    unfolding frame_rows_geometrize by auto
  then show ?thesis
    by (auto simp: extend_sel)
qed

lemma spatial_filter_subset:
  "set (frame_rows (spatial_filter gdf)) \<subseteq> set (frame_rows gdf)"
  by (simp add: spatial_filter_def)


text \<open>
  C4. When the cleaner returns a table, every row of the cleaned, the geolocated and the
  filtered table has latitude, longitude and year non-null, and no row of the input that
  lacks latitude or longitude has its label in any of the three tables.
\<close>

theorem retained_records_complete:
  assumes "clean (read_csv file_rows) = Inr df"
  shows "(\<forall>(i, r) \<in> set df. latitude r \<noteq> None \<and> longitude r \<noteq> None \<and> year_col r \<noteq> None)
       \<and> (\<forall>(i, r) \<in> set (frame_rows (geometrize df)).
             latitude r \<noteq> None \<and> longitude r \<noteq> None \<and> year_col r \<noteq> None)
       \<and> (\<forall>(i, r) \<in> set (frame_rows (spatial_filter (geometrize df))).
             latitude r \<noteq> None \<and> longitude r \<noteq> None \<and> year_col r \<noteq> None)
       \<and> (\<forall>i < length file_rows.
             decimalLatitude (file_rows ! i) = None \<or> decimalLongitude (file_rows ! i) = None \<longrightarrow>
               i \<notin> fst ` set df
             \<and> i \<notin> fst ` set (frame_rows (geometrize df))
             \<and> i \<notin> fst ` set (frame_rows (spatial_filter (geometrize df))))"
proof -
  let ?gdf = "geometrize df"
  let ?mbc = "spatial_filter ?gdf"
  have source: "i < length file_rows \<and> decimalLatitude (file_rows ! i) \<noteq> None
        \<and> decimalLongitude (file_rows ! i) \<noteq> None"
    and row_ok: "latitude r \<noteq> None \<and> longitude r \<noteq> None \<and> year_col r \<noteq> None"
    if "(i, r) \<in> set df" for i r
  proof -
    from clean_row_origin [OF assms that] obtain s where s: "(i, s) \<in> set (read_csv file_rows)"
      "decimalLatitude s \<noteq> None" "decimalLongitude s \<noteq> None"
      "latitude r = decimalLatitude s" "longitude r = decimalLongitude s" "year_col r \<noteq> None"
      by blast
    from read_csv_label [OF s(1)] s(2,3)
    show "i < length file_rows \<and> decimalLatitude (file_rows ! i) \<noteq> None
        \<and> decimalLongitude (file_rows ! i) \<noteq> None"
      by simp
    from s(2-6) show "latitude r \<noteq> None \<and> longitude r \<noteq> None \<and> year_col r \<noteq> None"
      by simp
  qed
  have geo_src: "\<exists>r. (i, r) \<in> set df" and geo_ok: "latitude g \<noteq> None \<and> longitude g \<noteq> None \<and> year_col g \<noteq> None"
    if "(i, g) \<in> set (frame_rows ?gdf)" for i g
  proof -
    from geometrize_row_origin [OF that] obtain r where r: "(i, r) \<in> set df"
      "latitude g = latitude r" "longitude g = longitude r" "year_col g = year_col r"
      by blast
    from r(1) show "\<exists>r. (i, r) \<in> set df" ..
    from row_ok [OF r(1)] r(2-4)
    show "latitude g \<noteq> None \<and> longitude g \<noteq> None \<and> year_col g \<noteq> None"
      by simp
  qed
  have filtered: "(i, g) \<in> set (frame_rows ?gdf)" if "(i, g) \<in> set (frame_rows ?mbc)" for i g
    using that spatial_filter_subset [of ?gdf] by (rule subsetD [rotated])
  have a: "\<forall>(i, r) \<in> set df. latitude r \<noteq> None \<and> longitude r \<noteq> None \<and> year_col r \<noteq> None"
  proof (rule ballI)
    fix x assume "x \<in> set df"
    then show "case x of (i, r) \<Rightarrow> latitude r \<noteq> None \<and> longitude r \<noteq> None \<and> year_col r \<noteq> None"
      using row_ok [of "fst x" "snd x"] by (simp add: case_prod_unfold)
  qed
  have b: "\<forall>(i, r) \<in> set (frame_rows ?gdf). latitude r \<noteq> None \<and> longitude r \<noteq> None \<and> year_col r \<noteq> None"
  proof (rule ballI)
    fix x assume "x \<in> set (frame_rows ?gdf)"
    then show "case x of (i, r) \<Rightarrow> latitude r \<noteq> None \<and> longitude r \<noteq> None \<and> year_col r \<noteq> None"
      using geo_ok [of "fst x" "snd x"] by (simp add: case_prod_unfold)
  qed
  have c: "\<forall>(i, r) \<in> set (frame_rows ?mbc). latitude r \<noteq> None \<and> longitude r \<noteq> None \<and> year_col r \<noteq> None"
  proof (rule ballI)
    fix x assume "x \<in> set (frame_rows ?mbc)"
    then have "(fst x, snd x) \<in> set (frame_rows ?gdf)"
      using filtered [of "fst x" "snd x"] by simp
    then show "case x of (i, r) \<Rightarrow> latitude r \<noteq> None \<and> longitude r \<noteq> None \<and> year_col r \<noteq> None"
      using geo_ok [of "fst x" "snd x"] by (simp add: case_prod_unfold)
  qed
  have d: "\<forall>i < length file_rows.
             decimalLatitude (file_rows ! i) = None \<or> decimalLongitude (file_rows ! i) = None \<longrightarrow>
               i \<notin> fst ` set df
             \<and> i \<notin> fst ` set (frame_rows ?gdf)
             \<and> i \<notin> fst ` set (frame_rows ?mbc)"
  proof (intro allI impI)
    fix i
    assume "i < length file_rows"
      and lacking: "decimalLatitude (file_rows ! i) = None \<or> decimalLongitude (file_rows ! i) = None"
    have not_cleaned: "i \<notin> fst ` set df"
    proof
      assume "i \<in> fst ` set df"
      then obtain r where "(i, r) \<in> set df" by auto
      from source [OF this] lacking show False by auto
    qed
    have not_located: "i \<notin> fst ` set (frame_rows ?gdf)"
    proof
      assume "i \<in> fst ` set (frame_rows ?gdf)"
      then obtain g where "(i, g) \<in> set (frame_rows ?gdf)" by auto
      from geo_src [OF this] obtain r where "(i, r) \<in> set df" ..
      then have "i \<in> fst ` set df" by force
      with not_cleaned show False ..
    qed
    have "i \<notin> fst ` set (frame_rows ?mbc)"
    proof
      assume "i \<in> fst ` set (frame_rows ?mbc)"
      then obtain g where "(i, g) \<in> set (frame_rows ?mbc)" by auto
      from filtered [OF this] have "i \<in> fst ` set (frame_rows ?gdf)" by force
      with not_located show False ..
    qed
    with not_cleaned not_located
    show "i \<notin> fst ` set df \<and> i \<notin> fst ` set (frame_rows ?gdf) \<and> i \<notin> fst ` set (frame_rows ?mbc)"
      by simp
  qed
  from a b c d show ?thesis by (intro conjI)
qed


lemma inside_scenario: "locatePointInRing (- 85, 10) mbc_coords = Interior"
  by (simp add: mbc_coords_def locatePointInRing_def countSegment_def orientation_index_def getLocation_def Let_def)

lemma outside_scenario: "locatePointInRing (0, 0) mbc_coords = Exterior"
  by (simp add: mbc_coords_def locatePointInRing_def countSegment_def orientation_index_def getLocation_def Let_def)

lemma scenario_filtered:
  "map fst (frame_rows (spatial_filter (geometrize scenario_cleaned))) = [0]"
  using inside_scenario outside_scenario
  by (simp add: spatial_filter_def frame_rows_geometrize scenario_cleaned_def extend_sel
      within_poly_def mbc_polygon_def)

theorem retained_records_complete_witness:
  "clean (read_csv scenario_rows) = Inr scenario_cleaned
   \<and> decimalLongitude (scenario_rows ! 1) = None
   \<and> 1 \<notin> fst ` set scenario_cleaned
   \<and> 1 \<notin> fst ` set (frame_rows (geometrize scenario_cleaned))
   \<and> 1 \<notin> fst ` set (frame_rows (spatial_filter (geometrize scenario_cleaned)))
   \<and> fst ` set (frame_rows (spatial_filter (geometrize scenario_cleaned))) = {0}"
proof -
  have missing: "(1::nat) < length scenario_rows" "decimalLongitude (scenario_rows ! 1) = None"
    by (simp_all add: scenario_rows_def)
  have "set (map fst (frame_rows (spatial_filter (geometrize scenario_cleaned)))) = set [0]"
    by (simp only: scenario_filtered)
  then have kept: "fst ` set (frame_rows (spatial_filter (geometrize scenario_cleaned))) = {0}"
    by simp
  from retained_records_complete [OF clean_scenario] missing(1,2)
  have "1 \<notin> fst ` set scenario_cleaned
      \<and> 1 \<notin> fst ` set (frame_rows (geometrize scenario_cleaned))
      \<and> 1 \<notin> fst ` set (frame_rows (spatial_filter (geometrize scenario_cleaned)))"
    by simp
  with clean_scenario missing(2) kept show ?thesis by simp
qed

section \<open>Properties of the spatial filter\<close>

subsection \<open>What the locator calls the boundary\<close>

lemma orientation_index_0:
  "orientation_index p1 p2 q = 0 \<longleftrightarrow>
     (fst p2 - fst p1) * (snd q - snd p1) = (snd p2 - snd p1) * (fst q - fst p1)"
  by (auto simp: orientation_index_def Let_def)

lemma countSegment_keeps_flag:
  "isPointOnSegment c \<Longrightarrow> isPointOnSegment (countSegment pt p1 p2 c)"
  by (simp add: countSegment_def Let_def)

lemma countSegment_flag:
  "\<not> isPointOnSegment c \<Longrightarrow> isPointOnSegment (countSegment pt p1 p2 c) = hits pt p1 p2"
  by (simp add: hits_def countSegment_def Let_def)

lemma hits_end: "hits pt p1 pt"
  by (simp add: hits_def countSegment_def)

lemma countRing_flag:
  "isPointOnSegment (countRing pt ring c) \<longleftrightarrow> isPointOnSegment c \<or> any_hit pt ring"
proof (induction pt ring c rule: countRing.induct)
  case (1 pt p1 p2 ring c)
  show ?case
  proof (cases "isPointOnSegment (countSegment pt p1 p2 c)")
    case True
    then show ?thesis
      using countSegment_flag [of c pt p1 p2] by (auto simp: Let_def)
  next
    case False
    then have "\<not> isPointOnSegment c"
      using countSegment_keeps_flag by blast
    with False have "\<not> hits pt p1 p2"
      by (simp add: countSegment_flag)
    with False "1.IH" [OF refl False] \<open>\<not> isPointOnSegment c\<close> show ?thesis
      by (simp add: Let_def)
  qed
qed simp_all

lemma locate_Boundary: "locatePointInRing pt ring = Boundary \<longleftrightarrow> any_hit pt ring"
  by (simp add: locatePointInRing_def getLocation_def countRing_flag)

text \<open>A segment that raises the flag holds the point.\<close>

lemma between_scaled:
  fixes u v dx dy :: rat
  assumes "0 < dy" "0 \<le> u" "u \<le> dy" "dx * u = dy * v"
  shows "min 0 dx \<le> v \<and> v \<le> max 0 dx"
proof (cases "0 \<le> dx")
  case True
  have "0 \<le> dy * v" using True assms(2,4) by (metis mult_nonneg_nonneg)
  then have lo: "0 \<le> v" using assms(1) by (simp add: zero_le_mult_iff)
  have "dy * v \<le> dy * dx"
    using mult_left_mono [OF assms(3) True] assms(4) by (simp add: mult.commute)
  then have "v \<le> dx" using assms(1) by simp
  with lo True show ?thesis by simp
next
  case False
  then have neg: "dx \<le> 0" by simp
  have "dy * v \<le> 0" using neg assms(2,4) by (metis mult_nonpos_nonneg)
  then have hi: "v \<le> 0" using assms(1) by (simp add: mult_le_0_iff)
  have "dx * dy \<le> dx * u"
    using mult_left_mono_neg [OF assms(3) neg] .
  then have "dy * dx \<le> dy * v" using assms(4) by (simp add: mult.commute)
  then have "dx \<le> v" using assms(1) by simp
  with hi neg show ?thesis by simp
qed

lemma hits_iff:
  "hits (px, py) (x1, y1) (x2, y2) \<longleftrightarrow>
     \<not> (x1 < px \<and> x2 < px) \<and>
     ((px = x2 \<and> py = y2)
      \<or> (y1 = py \<and> y2 = py \<and> min x1 x2 \<le> px \<and> px \<le> max x1 x2)
      \<or> (((y1 > py \<and> y2 \<le> py) \<or> (y2 > py \<and> y1 \<le> py))
          \<and> (x2 - x1) * (py - y1) = (y2 - y1) * (px - x1)))"
  by (auto simp: hits_def countSegment_def Let_def orientation_index_0)

lemma on_segment_iff:
  "on_segment (px, py) (x1, y1) (x2, y2) \<longleftrightarrow>
     (x2 - x1) * (py - y1) = (y2 - y1) * (px - x1)
     \<and> min x1 x2 \<le> px \<and> px \<le> max x1 x2 \<and> min y1 y2 \<le> py \<and> py \<le> max y1 y2"
  by (simp add: on_segment_def orientation_index_0)

lemma collinear_x_range:
  fixes px py x1 y1 x2 y2 :: rat
  assumes det: "(x2 - x1) * (py - y1) = (y2 - y1) * (px - x1)"
    and cross: "(y1 > py \<and> y2 \<le> py) \<or> (y2 > py \<and> y1 \<le> py)"
  shows "min x1 x2 \<le> px \<and> px \<le> max x1 x2"
proof -
  have "min 0 (x2 - x1) \<le> px - x1 \<and> px - x1 \<le> max 0 (x2 - x1)"
  proof (cases "y2 > py \<and> y1 \<le> py")
    case True
    then show ?thesis
      using between_scaled [of "y2 - y1" "py - y1" "x2 - x1" "px - x1"] det by simp
  next
    case False
    with cross have down: "y1 > py" "y2 \<le> py" by auto
    have "(x2 - x1) * (y1 - py) = (y1 - y2) * (px - x1)"
      using det by (simp add: algebra_simps)
    then show ?thesis
      using between_scaled [of "y1 - y2" "y1 - py" "x2 - x1" "px - x1"] down by simp
  qed
  then show ?thesis by (auto simp: min_def max_def split: if_splits)
qed

lemma hits_on_segment: "hits pt p1 p2 \<Longrightarrow> on_segment pt p1 p2"
proof -
  obtain px py x1 y1 x2 y2 where e: "pt = (px, py)" "p1 = (x1, y1)" "p2 = (x2, y2)"
    by (metis surj_pair)
  assume "hits pt p1 p2"
  then consider
      (vertex) "px = x2" "py = y2"
    | (level) "y1 = py" "y2 = py" "min x1 x2 \<le> px" "px \<le> max x1 x2"
    | (crossing) "(y1 > py \<and> y2 \<le> py) \<or> (y2 > py \<and> y1 \<le> py)"
        "(x2 - x1) * (py - y1) = (y2 - y1) * (px - x1)"
    unfolding e hits_iff by blast
  then show ?thesis
  proof cases
    case vertex
    then show ?thesis unfolding e on_segment_iff by (simp add: mult.commute)
  next
    case level
    then show ?thesis unfolding e on_segment_iff by simp
  next
    case crossing
    with collinear_x_range [OF crossing(2,1)] show ?thesis
      unfolding e on_segment_iff by (auto simp: min_def max_def)
  qed
qed

lemma any_hit_on_ring: "any_hit pt ring \<Longrightarrow> on_ring pt ring"
  by (induction pt ring rule: any_hit.induct) (auto dest: hits_on_segment)

text \<open>
  A segment that holds the point raises the flag, unless the point is the segment's
  first end; then the segment before it, which ends there, raises it.
\<close>

lemma on_segment_hits: "on_segment pt p1 p2 \<Longrightarrow> hits pt p1 p2 \<or> pt = p1"
proof -
  obtain px py x1 y1 x2 y2 where e: "pt = (px, py)" "p1 = (x1, y1)" "p2 = (x2, y2)"
    by (metis surj_pair)
  assume "on_segment pt p1 p2"
  then have det: "(x2 - x1) * (py - y1) = (y2 - y1) * (px - x1)"
    and xr: "min x1 x2 \<le> px" "px \<le> max x1 x2"
    and yr: "min y1 y2 \<le> py" "py \<le> max y1 y2"
    unfolding e on_segment_iff by simp_all
  from xr have not_left: "\<not> (x1 < px \<and> x2 < px)"
    by (auto simp: max_def split: if_splits)
  show ?thesis
  proof (cases "y1 = y2")
    case True
    with yr have "y1 = py" "y2 = py" by simp_all
    with xr not_left show ?thesis unfolding e hits_iff by simp
  next
    case False
    show ?thesis
    proof (cases "py = y1")
      case True
      with det False have "px = x1" by simp
      with True show ?thesis unfolding e by simp
    next
      case start: False
      show ?thesis
      proof (cases "py = y2")
        case True
        with det False have "x2 - x1 = px - x1" by (simp add: mult.commute)
        with True not_left show ?thesis unfolding e hits_iff by simp
      next
        case finish: False
        from yr False start finish
        have "(y1 > py \<and> y2 \<le> py) \<or> (y2 > py \<and> y1 \<le> py)"
          by (auto simp: min_def max_def split: if_splits)
        with det not_left show ?thesis unfolding e hits_iff by simp
      qed
    qed
  qed
qed

lemma any_hit_last:
  "2 \<le> length ring \<Longrightarrow> last ring = pt \<Longrightarrow> any_hit pt ring"
proof (induction pt ring rule: any_hit.induct)
  case (1 pt p1 p2 ring)
  show ?case
  proof (cases ring)
    case Nil
    with "1.prems" show ?thesis by (simp add: hits_end)
  next
    case (Cons p3 rest)
    with "1.prems" "1.IH" show ?thesis by simp
  qed
qed simp_all

lemma on_ring_any_hit: "on_ring pt ring \<Longrightarrow> any_hit pt ring \<or> pt = hd ring"
proof (induction pt ring rule: on_ring.induct)
  case (1 pt a b ring)
  from "1.prems" consider "on_segment pt a b" | "on_ring pt (b # ring)" by auto
  then show ?case
  proof cases
    case 1
    from on_segment_hits [OF this] show ?thesis by auto
  next
    case 2
    with "1.IH" have "any_hit pt (b # ring) \<or> pt = b" by simp
    then show ?thesis using hits_end [of pt a] by auto
  qed
qed simp_all

lemma on_ring_length: "on_ring pt ring \<Longrightarrow> 2 \<le> length ring"
  by (induction pt ring rule: on_ring.induct) simp_all

text \<open>
  On a closed ring the locator answers \<open>Boundary\<close> exactly for the points of the ring's
  segments.
\<close>

lemma locate_Boundary_iff_on_ring:
  assumes "hd ring = last ring"
  shows "locatePointInRing pt ring = Boundary \<longleftrightarrow> on_ring pt ring"
proof
  assume "locatePointInRing pt ring = Boundary"
  then show "on_ring pt ring"
    by (simp add: locate_Boundary any_hit_on_ring)
next
  assume on: "on_ring pt ring"
  then have "any_hit pt ring \<or> pt = hd ring" by (rule on_ring_any_hit)
  moreover have "any_hit pt ring" if "pt = hd ring"
    using any_hit_last [OF on_ring_length [OF on]] that assms by simp
  ultimately show "locatePointInRing pt ring = Boundary"
    by (auto simp: locate_Boundary)
qed

subsection \<open>The locator against the crossing rule\<close>

lemma crosses_ray_iff:
  "crosses_ray (px, py) (x1, y1) (x2, y2) \<longleftrightarrow>
     ((y1 > py \<and> y2 \<le> py) \<or> (y2 > py \<and> y1 \<le> py))
     \<and> px < x1 + (py - y1) * (x2 - x1) / (y2 - y1)"
  by (auto simp: crosses_ray_def ray_x_def min_def max_def)

lemma ray_x_upward:
  fixes px py x1 y1 x2 y2 :: rat
  assumes "y1 < y2"
  shows "px < x1 + (py - y1) * (x2 - x1) / (y2 - y1)
           \<longleftrightarrow> 0 < (x2 - x1) * (py - y1) - (y2 - y1) * (px - x1)"
proof -
  have "px < x1 + (py - y1) * (x2 - x1) / (y2 - y1)
          \<longleftrightarrow> px - x1 < (py - y1) * (x2 - x1) / (y2 - y1)"
    by auto
  also have "\<dots> \<longleftrightarrow> (px - x1) * (y2 - y1) < (py - y1) * (x2 - x1)"
    using assms by (simp add: pos_less_divide_eq)
  also have "\<dots> \<longleftrightarrow> 0 < (x2 - x1) * (py - y1) - (y2 - y1) * (px - x1)"
    by (simp add: mult.commute)
  finally show ?thesis .
qed

lemma ray_x_downward:
  fixes px py x1 y1 x2 y2 :: rat
  assumes "y2 < y1"
  shows "px < x1 + (py - y1) * (x2 - x1) / (y2 - y1)
           \<longleftrightarrow> (x2 - x1) * (py - y1) - (y2 - y1) * (px - x1) < 0"
proof -
  have "px < x1 + (py - y1) * (x2 - x1) / (y2 - y1)
          \<longleftrightarrow> px - x1 < (py - y1) * (x2 - x1) / (y2 - y1)"
    by auto
  also have "\<dots> \<longleftrightarrow> (py - y1) * (x2 - x1) < (px - x1) * (y2 - y1)"
    using assms by (simp add: neg_less_divide_eq)
  also have "\<dots> \<longleftrightarrow> (x2 - x1) * (py - y1) - (y2 - y1) * (px - x1) < 0"
    by (simp add: mult.commute)
  finally show ?thesis .
qed


lemma ray_x_between:
  fixes py x1 y1 x2 y2 :: rat
  assumes cross: "(y1 > py \<and> y2 \<le> py) \<or> (y2 > py \<and> y1 \<le> py)"
  shows "min x1 x2 \<le> x1 + (py - y1) * (x2 - x1) / (y2 - y1)
       \<and> x1 + (py - y1) * (x2 - x1) / (y2 - y1) \<le> max x1 x2"
proof -
  let ?X = "x1 + (py - y1) * (x2 - x1) / (y2 - y1)"
  from cross have "y2 - y1 \<noteq> 0" by auto
  then have "(x2 - x1) * (py - y1) = (y2 - y1) * (?X - x1)"
    by (simp add: mult.commute)
  from collinear_x_range [OF this cross] show ?thesis .
qed

text \<open>
  A step of the locator that does not raise the flag counts the segment exactly when the
  segment crosses the ray.
\<close>

lemma countSegment_count:
  assumes "\<not> hits (px, py) (x1, y1) (x2, y2)"
  shows "countSegment (px, py) (x1, y1) (x2, y2) c
           = c\<lparr>crossingCount := crossingCount c
                  + (if crosses_ray (px, py) (x1, y1) (x2, y2) then 1 else 0)\<rparr>"
proof (cases "(y1 > py \<and> y2 \<le> py) \<or> (y2 > py \<and> y1 \<le> py)")
  case False
  then have "\<not> crosses_ray (px, py) (x1, y1) (x2, y2)"
    by (simp add: crosses_ray_iff)
  moreover from False assms have "countSegment (px, py) (x1, y1) (x2, y2) c = c"
    by (auto simp: hits_iff countSegment_def Let_def)
  ultimately show ?thesis by simp
next
  case cross: True
  then have slope: "y1 \<noteq> y2" by auto
  show ?thesis
  proof (cases "x1 < px \<and> x2 < px")
    case True
    with ray_x_between [OF cross, of x1 x2]
    have "\<not> px < x1 + (py - y1) * (x2 - x1) / (y2 - y1)"
      by (auto simp: max_def split: if_splits)
    then have "\<not> crosses_ray (px, py) (x1, y1) (x2, y2)"
      by (simp add: crosses_ray_iff)
    moreover from True have "countSegment (px, py) (x1, y1) (x2, y2) c = c"
      by (simp add: countSegment_def)
    ultimately show ?thesis by simp
  next
    case near: False
    with assms cross have det: "(x2 - x1) * (py - y1) \<noteq> (y2 - y1) * (px - x1)"
      and not_end: "\<not> (px = x2 \<and> py = y2)"
      by (auto simp: hits_iff)
    from cross have not_level: "\<not> (y1 = py \<and> y2 = py)" by auto
    show ?thesis
    proof (cases "y1 < y2")
      case True
      with cross have up: "y2 > py" "y1 \<le> py" by auto
      from True near not_end not_level cross det show ?thesis
        by (auto simp: countSegment_def orientation_index_def Let_def crosses_ray_iff
            ray_x_upward)
    next
      case False
      with slope have down: "y2 < y1" by simp
      from down near not_end not_level cross det show ?thesis
        by (auto simp: countSegment_def orientation_index_def Let_def crosses_ray_iff
            ray_x_downward)
    qed
  qed
qed


lemma countSegment_crosses:
  assumes "\<not> hits pt p1 p2"
  shows "countSegment pt p1 p2 c
           = c\<lparr>crossingCount := crossingCount c + (if crosses_ray pt p1 p2 then 1 else 0)\<rparr>"
proof -
  obtain px py x1 y1 x2 y2 where e: "pt = (px, py)" "p1 = (x1, y1)" "p2 = (x2, y2)"
    by (metis surj_pair)
  from assms show ?thesis unfolding e by (rule countSegment_count)
qed

lemma countRing_crossing_number:
  assumes "\<not> any_hit pt ring" "\<not> isPointOnSegment c"
  shows "countRing pt ring c = c\<lparr>crossingCount := crossingCount c + crossing_number pt ring\<rparr>"
  using assms
proof (induction pt ring c rule: countRing.induct)
  case (1 pt p1 p2 ring c)
  let ?c' = "countSegment pt p1 p2 c"
  from "1.prems" have no_hit: "\<not> hits pt p1 p2" and rest: "\<not> any_hit pt (p2 # ring)"
    by simp_all
  have step: "?c' = c\<lparr>crossingCount := crossingCount c + (if crosses_ray pt p1 p2 then 1 else 0)\<rparr>"
    using no_hit by (rule countSegment_crosses)
  with "1.prems"(2) have unflagged: "\<not> isPointOnSegment ?c'" by simp
  from "1.IH" [OF refl unflagged rest unflagged]
  have "countRing pt (p2 # ring) ?c'
          = ?c'\<lparr>crossingCount := crossingCount ?c' + crossing_number pt (p2 # ring)\<rparr>" .
  with unflagged show ?case
    by (simp add: Let_def step)
qed simp_all

text \<open>
  On a closed ring the locator's three answers are the three cases of the crossing rule.
\<close>

lemma locate_iff:
  assumes "hd ring = last ring"
  shows "locatePointInRing pt ring = Interior \<longleftrightarrow> strictly_inside pt ring"
    and "locatePointInRing pt ring = Exterior \<longleftrightarrow> strictly_outside pt ring"
proof -
  have edge: "on_ring pt ring \<longleftrightarrow> locatePointInRing pt ring = Boundary"
    using locate_Boundary_iff_on_ring [OF assms] by simp
  have off: "locatePointInRing pt ring
               = (if odd (crossing_number pt ring) then Interior else Exterior)"
    if "\<not> on_ring pt ring"
  proof -
    from that have "\<not> any_hit pt ring"
      using any_hit_on_ring by blast
    then show ?thesis
      by (simp add: locatePointInRing_def getLocation_def countRing_crossing_number
          odd_iff_mod_2_eq_one)
  qed
  show "locatePointInRing pt ring = Interior \<longleftrightarrow> strictly_inside pt ring"
    using edge off by (cases "on_ring pt ring") (auto simp: strictly_inside_def)
  show "locatePointInRing pt ring = Exterior \<longleftrightarrow> strictly_outside pt ring"
    using edge off by (cases "on_ring pt ring") (auto simp: strictly_outside_def)
qed

lemma ring_closed: "hd mbc_coords = last mbc_coords"
  by (simp add: mbc_coords_def)

subsection \<open>The filter\<close>

lemma clean_vertex: "clean (read_csv vertex_rows) = Inr vertex_cleaned"
  by code_simp

lemma vertex_on_boundary:
  "locatePointInRing (-87.99396217355365, 12.890920733564085) mbc_coords = Boundary"
  by (simp add: mbc_coords_def locatePointInRing_def countSegment_def getLocation_def Let_def)

lemma vertex_in_ring: "(-87.99396217355365, 12.890920733564085) \<in> set mbc_coords"
  by (simp add: mbc_coords_def)

lemma within_poly_Interior:
  "within_poly (Point (Some px) (Some py)) mbc_polygon
     \<longleftrightarrow> locatePointInRing (px, py) mbc_coords = Interior"
  by (simp add: within_poly_def mbc_polygon_def)

lemma location_cases: "l = Interior \<or> l = Boundary \<or> l = Exterior"
  by (cases l) simp_all

text \<open>
  C2, as the code has it. A row of the geolocated table is in the filtered table exactly
  when its point is strictly inside the polygon by the crossing rule: off the ring, with an
  odd number of crossings. A row the filter leaves out has its point on a segment of the
  ring (the boundary) or strictly outside.
\<close>

theorem spatial_filter_interior:
  assumes "(i, r) \<in> set (frame_rows gdf)" and "geometry r = Point (Some px) (Some py)"
  shows "((i, r) \<in> set (frame_rows (spatial_filter gdf))
            \<longleftrightarrow> strictly_inside (px, py) mbc_coords)
       \<and> ((i, r) \<notin> set (frame_rows (spatial_filter gdf))
            \<longrightarrow> on_ring (px, py) mbc_coords \<or> strictly_outside (px, py) mbc_coords)"
proof -
  let ?loc = "locatePointInRing (px, py) mbc_coords"
  have kept: "(i, r) \<in> set (frame_rows (spatial_filter gdf)) \<longleftrightarrow> ?loc = Interior"
    using assms by (simp add: spatial_filter_def within_poly_Interior)
  have inside: "?loc = Interior \<longleftrightarrow> strictly_inside (px, py) mbc_coords"
    by (rule locate_iff(1) [OF ring_closed])
  have outside: "?loc = Exterior \<longleftrightarrow> strictly_outside (px, py) mbc_coords"
    by (rule locate_iff(2) [OF ring_closed])
  have edge: "?loc = Boundary \<longleftrightarrow> on_ring (px, py) mbc_coords"
    by (rule locate_Boundary_iff_on_ring [OF ring_closed])
  from kept inside have first: "(i, r) \<in> set (frame_rows (spatial_filter gdf))
            \<longleftrightarrow> strictly_inside (px, py) mbc_coords"
    by simp
  have "on_ring (px, py) mbc_coords \<or> strictly_outside (px, py) mbc_coords"
    if "(i, r) \<notin> set (frame_rows (spatial_filter gdf))"
    using that kept location_cases [of ?loc] edge outside by auto
  with first show ?thesis by simp
qed

text \<open>
  The claim as the specification words it fails at a vertex of the ring. The input file
  with one sighting at the ring's second vertex is cleaned and geolocated; the filter
  leaves the row out, and yet its point is a vertex of the polygon: it lies on the
  ring and is not strictly outside.
\<close>

theorem boundary_point_excluded:
  "clean (read_csv vertex_rows) = Inr vertex_cleaned
   \<and> length (frame_rows (geometrize vertex_cleaned)) = 1
   \<and> geometry (snd (hd (frame_rows (geometrize vertex_cleaned))))
       = Point (Some (-87.99396217355365)) (Some 12.890920733564085)
   \<and> frame_rows (spatial_filter (geometrize vertex_cleaned)) = []
   \<and> (-87.99396217355365, 12.890920733564085) \<in> set mbc_coords
   \<and> on_ring (-87.99396217355365, 12.890920733564085) mbc_coords
   \<and> \<not> strictly_outside (-87.99396217355365, 12.890920733564085) mbc_coords
   \<and> locatePointInRing (-87.99396217355365, 12.890920733564085) mbc_coords = Boundary
   \<and> locatePointInRing (-87.99396217355365, 12.890920733564085) mbc_coords \<noteq> Exterior"
proof -
  have rows: "frame_rows (geometrize vertex_cleaned)
      = [(0, cleaned_row.extend (snd (hd vertex_cleaned))
               (geo_row.fields (Point (Some (-87.99396217355365)) (Some 12.890920733564085))))]"
    by (simp add: frame_rows_geometrize vertex_cleaned_def)
  have "\<not> within_poly (Point (Some (-87.99396217355365)) (Some 12.890920733564085)) mbc_polygon"
    using vertex_on_boundary by (simp add: within_poly_Interior)
  then have none: "frame_rows (spatial_filter (geometrize vertex_cleaned)) = []"
    by (simp add: spatial_filter_def rows extend_sel)
  have edge: "on_ring (-87.99396217355365, 12.890920733564085) mbc_coords"
    using locate_Boundary_iff_on_ring [OF ring_closed] vertex_on_boundary by blast
  then have not_out: "\<not> strictly_outside (-87.99396217355365, 12.890920733564085) mbc_coords"
    by (simp add: strictly_outside_def)
  from clean_vertex rows none vertex_in_ring edge not_out vertex_on_boundary show ?thesis
    by (simp add: extend_sel)
qed

theorem spatial_filter_interior_witness:
  "hd (frame_rows (geometrize scenario_cleaned)) \<in> set (frame_rows (geometrize scenario_cleaned))
   \<and> geometry (snd (hd (frame_rows (geometrize scenario_cleaned)))) = Point (Some (- 85)) (Some 10)
   \<and> hd (frame_rows (geometrize scenario_cleaned))
        \<in> set (frame_rows (spatial_filter (geometrize scenario_cleaned)))
   \<and> strictly_inside (- 85, 10) mbc_coords"
proof -
  let ?gdf = "geometrize scenario_cleaned"
  let ?r = "snd (hd (frame_rows ?gdf))"
  have first: "hd (frame_rows ?gdf) = (0, ?r)"
    by (simp add: frame_rows_geometrize scenario_cleaned_def)
  have member: "(0, ?r) \<in> set (frame_rows ?gdf)"
    by (simp add: frame_rows_geometrize scenario_cleaned_def)
  have geom: "geometry ?r = Point (Some (- 85)) (Some 10)"
    by (simp add: frame_rows_geometrize scenario_cleaned_def extend_sel)
  have kept: "(0, ?r) \<in> set (frame_rows (spatial_filter ?gdf))"
    using inside_scenario
    by (simp add: spatial_filter_def frame_rows_geometrize scenario_cleaned_def extend_sel
        within_poly_def mbc_polygon_def)
  from spatial_filter_interior [OF member geom] kept
  have "strictly_inside (- 85, 10) mbc_coords"
    by simp
  with first member geom kept show ?thesis
    by simp
qed

end
